theory Spec2Isabelle
  imports Main "HOL-Library.Sublist"
begin

section \<open>Go string primitives used by the stream grant resource\<close>

text \<open>
  Go strings are byte sequences; \<^typ>\<open>string\<close> is a list of bytes. The functions below are
  the byte-level behaviour of \<^verbatim>\<open>strings.Index\<close>, \<^verbatim>\<open>strings.Contains\<close>,
  \<^verbatim>\<open>strings.Split\<close> and \<^verbatim>\<open>strings.Join\<close> of the Go standard library.
\<close>

text \<open>\<^verbatim>\<open>strings.Index(s, substr)\<close>: the offset of the leftmost occurrence of
  \<open>substr\<close> in \<open>s\<close>; Go's \<open>-1\<close> is \<open>None\<close>.\<close>

fun Index :: "string \<Rightarrow> string \<Rightarrow> nat option" where
  "Index [] substr = (if substr = [] then Some 0 else None)"
| "Index (c # cs) substr =
     (if prefix substr (c # cs) then Some 0 else map_option Suc (Index cs substr))"

text \<open>\<^verbatim>\<open>strings.Contains(s, substr)\<close> is \<^verbatim>\<open>Index(s, substr) >= 0\<close>.\<close>

definition Contains :: "string \<Rightarrow> string \<Rightarrow> bool" where
  "Contains s substr = (Index s substr \<noteq> None)"

text \<open>
  \<^verbatim>\<open>strings.Split(s, sep)\<close> (\<^verbatim>\<open>genSplit(s, sep, 0, -1)\<close>): while \<open>sep\<close> occurs in the rest
  of \<open>s\<close>, cut the rest at the leftmost occurrence; the last piece is what remains. The
  resource only passes the non-empty literal separators; with an empty separator Go cuts
  after every UTF-8 sequence, which the first branch gives for ASCII input.
\<close>

function Split :: "string \<Rightarrow> string \<Rightarrow> string list" where
  "Split s sep =
     (if sep = [] then map (\<lambda>c. [c]) s
      else case Index s sep of
             None \<Rightarrow> [s]
           | Some m \<Rightarrow> take m s # Split (drop (m + length sep) s) sep)"
  by pat_completeness auto
termination
proof (relation "measure (\<lambda>(s, sep). length s)")
  show "wf (measure (\<lambda>(s, sep). length s))" by simp
next
  fix s sep :: string and m :: nat
  assume sep: "sep \<noteq> []" and found: "Index s sep = Some m"
  have bound: "Index t sep = Some k \<Longrightarrow> k + length sep \<le> length t" for t k
  proof (induction t arbitrary: k)
    case Nil
    then show ?case by (simp split: if_splits)
  next
    case (Cons c cs)
    show ?case
    proof (cases "prefix sep (c # cs)")
      case True
      then have "length sep \<le> length (c # cs)" by (rule prefix_length_le)
      with True Cons.prems show ?thesis by simp
    next
      case False
      with Cons.prems obtain j where "Index cs sep = Some j" "k = Suc j" by auto
      with Cons.IH show ?thesis by fastforce
    qed
  qed
  from sep have "0 < length sep" by simp
  moreover from found have "m + length sep \<le> length s" by (rule bound)
  ultimately have "length s - (m + length sep) < length s" by linarith
  then show "((drop (m + length sep) s, sep), (s, sep)) \<in> measure (\<lambda>(s, sep). length s)"
    by simp
qed

declare Split.simps [simp del]

text \<open>\<^verbatim>\<open>strings.Join(elems, sep)\<close>: nothing for no element, the element itself for one,
  otherwise the first element followed by \<open>sep\<close> and the next element, for each further
  element.\<close>

fun Join :: "string list \<Rightarrow> string \<Rightarrow> string" where
  "Join [] sep = []"
| "Join [e] sep = e"
| "Join (e # es) sep = e @ concat (map (\<lambda>s. sep @ s) es)"

text \<open>The verb \<^verbatim>\<open>%v\<close> of \<^verbatim>\<open>fmt.Sprintf\<close> on a \<^verbatim>\<open>bool\<close>.\<close>

definition Sprintf_bool :: "bool \<Rightarrow> string" where
  "Sprintf_bool b = (if b then ''true'' else ''false'')"

section \<open>The identifier of a stream grant\<close>

text \<open>The separator of the current identifier format, the snowflake emoji U+2744 U+FE0F,
  as its six UTF-8 bytes.\<close>

definition snowflake :: string where
  "snowflake = [CHR 0xE2, CHR 0x9D, CHR 0x84, CHR 0xEF, CHR 0xB8, CHR 0x8F]"

record StreamGrantID =
  DatabaseName :: string
  SchemaName :: string
  ObjectName :: string
  Privilege :: string
  Roles :: "string list"
  WithGrantOption :: bool

definition NewStreamGrantID ::
  "string \<Rightarrow> string \<Rightarrow> string \<Rightarrow> string \<Rightarrow> string list \<Rightarrow> bool \<Rightarrow> StreamGrantID" where
  "NewStreamGrantID databaseName schemaName objectName privilege roles withGrantOption =
     \<lparr>DatabaseName = databaseName, SchemaName = schemaName, ObjectName = objectName,
      Privilege = privilege, Roles = roles, WithGrantOption = withGrantOption\<rparr>"

text \<open>\<^verbatim>\<open>(*StreamGrantID).String\<close>.\<close>

definition StreamGrantID_String :: "StreamGrantID \<Rightarrow> string" where
  "StreamGrantID_String v =
     (let roles = Join (Roles v) '','' in
      DatabaseName v @ snowflake @ SchemaName v @ snowflake @ ObjectName v @ snowflake
        @ Privilege v @ snowflake @ Sprintf_bool (WithGrantOption v) @ snowflake @ roles)"

text \<open>
  What a call can end with besides its result: an \<^verbatim>\<open>error\<close> value that is returned, or a
  run-time panic. \<open>errors_New\<close> is \<^verbatim>\<open>errors.New(msg)\<close>; \<open>unexpected_ID_parts n\<close> is
  \<^verbatim>\<open>fmt.Errorf("unexpected number of ID parts (%d), expected 6", n)\<close>, the malformed
  identifier error; \<open>driver_error\<close> is an error of the SQL driver.
  \<open>index_out_of_range i n\<close> is the panic of indexing a slice of length \<open>n\<close> at \<open>i\<close>.
\<close>

datatype error = errors_New string | unexpected_ID_parts nat | driver_error string

datatype failure = Error error | index_out_of_range nat nat

text \<open>Indexing a slice, \<^verbatim>\<open>a[i]\<close>, with its bounds check.\<close>

definition index_at :: "'a list \<Rightarrow> nat \<Rightarrow> failure + 'a" where
  "index_at a i = (if i < length a then Inr (a ! i) else Inl (index_out_of_range i (length a)))"

text \<open>Sequencing: the first failure ends the evaluation.\<close>

definition and_then :: "failure + 'a \<Rightarrow> ('a \<Rightarrow> failure + 'b) \<Rightarrow> failure + 'b" where
  "and_then r f = (case r of Inl e \<Rightarrow> Inl e | Inr v \<Rightarrow> f v)"

text \<open>
  Modelled from the spec: \<^verbatim>\<open>helpers.SplitStringToSlice\<close> of package \<^verbatim>\<open>pkg/helpers\<close>, which
  is not part of the sources at hand. The specification of the identifier codec says: the
  role list segment is split on the separator, and an empty segment decodes to no role at
  all, not to a single empty role.
\<close>

definition SplitStringToSlice :: "string \<Rightarrow> string \<Rightarrow> string list" where
  "SplitStringToSlice s sep = (if s = [] then [] else Split s sep)"

text \<open>
  \<^verbatim>\<open>parseStreamGrantID\<close>. The fields of each composite literal are evaluated in the order
  they are written, so the first index that is out of range is the one that panics.
\<close>

definition parseStreamGrantID :: "string \<Rightarrow> failure + StreamGrantID" where
  "parseStreamGrantID s =
     (if \<not> Contains s snowflake then
        (let idParts = Split s ''|'' in
         and_then (index_at idParts 0) (\<lambda>p0.
         and_then (index_at idParts 1) (\<lambda>p1.
         and_then (index_at idParts 2) (\<lambda>p2.
         and_then (index_at idParts 3) (\<lambda>p3.
         and_then (index_at idParts 4) (\<lambda>p4.
           Inr \<lparr>DatabaseName = p0, SchemaName = p1, ObjectName = p2, Privilege = p3,
                Roles = [], WithGrantOption = (p4 = ''true'')\<rparr>))))))
      else
        (let idParts = Split s snowflake in
         if length idParts \<noteq> 6 then Inl (Error (unexpected_ID_parts (length idParts)))
         else
           and_then (index_at idParts 0) (\<lambda>p0.
           and_then (index_at idParts 1) (\<lambda>p1.
           and_then (index_at idParts 2) (\<lambda>p2.
           and_then (index_at idParts 3) (\<lambda>p3.
           and_then (index_at idParts 4) (\<lambda>p4.
           and_then (index_at idParts 5) (\<lambda>p5.
             Inr \<lparr>DatabaseName = p0, SchemaName = p1, ObjectName = p2, Privilege = p3,
                  Roles = SplitStringToSlice p5 '','', WithGrantOption = (p4 = ''true'')\<rparr>))))))))"

section \<open>The host's resource data and the SQL client\<close>

text \<open>
  \<^verbatim>\<open>*schema.ResourceData\<close> for the schema \<^verbatim>\<open>streamGrantSchema\<close>: the resource id and one
  field for each key of the schema. An unset string is the empty string and an unset
  boolean is false, the zero values \<^verbatim>\<open>d.Get\<close> returns. \<open>roles\<close> is the declared role
  set, \<open>roles_prior\<close> the role set of the prior state; the host hands both to
  \<^verbatim>\<open>d.GetChange("roles")\<close>. A set is a list here, in the order \<^verbatim>\<open>(*schema.Set).List\<close>
  returns it.
\<close>

record ResourceData =
  resource_id :: string
  database_name :: string
  enable_multiple_grants :: bool
  on_future :: bool
  privilege :: string
  roles :: "string list"
  roles_prior :: "string list"
  schema_name :: string
  stream_name :: string
  with_grant_option :: bool

text \<open>\<^verbatim>\<open>d.SetId\<close>, and \<^verbatim>\<open>d.State\<close>: the host keeps no state for a resource whose id is
  empty.\<close>

definition SetId :: "ResourceData \<Rightarrow> string \<Rightarrow> ResourceData" where
  "SetId d v = d\<lparr>resource_id := v\<rparr>"

definition State :: "ResourceData \<Rightarrow> ResourceData option" where
  "State d = (if resource_id d = [] then None else Some d)"

text \<open>\<^verbatim>\<open>d.GetOk\<close> on a string field: the value, and whether it is set to a non-zero value.\<close>

definition GetOk :: "string \<Rightarrow> string \<times> bool" where
  "GetOk v = (v, v \<noteq> [])"

text \<open>\<^verbatim>\<open>d.HasChange("roles")\<close> and \<^verbatim>\<open>d.HasChanges("roles")\<close>: the prior and the declared
  role set differ.\<close>

definition HasChange_roles :: "ResourceData \<Rightarrow> bool" where
  "HasChange_roles d = (set (roles_prior d) \<noteq> set (roles d))"

text \<open>
  The two grant builders of package \<^verbatim>\<open>snowflake\<close>, for one stream and for the future
  streams of a schema or database, and the statements a builder renders: the grant and the
  revocation of a privilege for a role, and the query that lists the grants.
\<close>

datatype GrantBuilder =
  StreamGrant string string string
| FutureStreamGrant string string

datatype statement =
  Grant GrantBuilder string string bool
| Revoke GrantBuilder string string
| Show GrantBuilder

text \<open>
  The SQL client \<^verbatim>\<open>*sql.DB\<close> behind \<^verbatim>\<open>meta\<close>: the statements sent so far, oldest first,
  and what the driver answers to a statement, given the statements sent before it. A
  statement that is executed is answered with an error or with none; a query is answered
  with rows (role, privilege, grant option), with the no-rows condition
  \<^verbatim>\<open>sql.ErrNoRows\<close>, or with another error.
\<close>

datatype query_result = Rows "(string \<times> string \<times> bool) list" | ErrNoRows | query_error string

record Meta =
  issued :: "statement list"
  exec_reply :: "statement list \<Rightarrow> statement \<Rightarrow> string option"
  query_reply :: "statement list \<Rightarrow> statement \<Rightarrow> query_result"

definition Exec :: "Meta \<Rightarrow> statement \<Rightarrow> error option \<times> Meta" where
  "Exec db q =
     (map_option driver_error (exec_reply db (issued db) q), db\<lparr>issued := issued db @ [q]\<rparr>)"

definition Query :: "Meta \<Rightarrow> statement \<Rightarrow> query_result \<times> Meta" where
  "Query db q = (query_reply db (issued db) q, db\<lparr>issued := issued db @ [q]\<rparr>)"

section \<open>The generic grant life cycle\<close>

text \<open>
  Modelled from the spec: \<^verbatim>\<open>createGenericGrantRolesAndShares\<close>, \<^verbatim>\<open>createGenericGrant\<close>,
  \<^verbatim>\<open>deleteGenericGrantRolesAndShares\<close>, \<^verbatim>\<open>changeDiff\<close> and \<^verbatim>\<open>readGenericGrant\<close>, the
  helpers shared by the grant resources, which are not part of the sources at hand. The
  specification of the generic grant life cycle says: create executes a grant statement
  for each declared role, and the first failure is returned with the earlier grants left
  in place; a revocation is executed for each role to revoke, in the same way; the roles to
  add are the desired roles without the previous ones, and the roles to revoke the
  previous roles without the desired ones; read issues the builder's show query, clears
  the resource state without an error if the object is not found, and otherwise
  reconciles the fields with the rows. The argument for shares, always empty for a stream
  grant, is left out. How the rows are written back to the fields is not specified; it is
  the parameter \<open>reconcile\<close>.
\<close>

fun createGenericGrantRolesAndShares ::
  "Meta \<Rightarrow> GrantBuilder \<Rightarrow> string \<Rightarrow> bool \<Rightarrow> string list \<Rightarrow> error option \<times> Meta" where
  "createGenericGrantRolesAndShares db builder priv grantOption [] = (None, db)"
| "createGenericGrantRolesAndShares db builder priv grantOption (role # rs) =
     (case Exec db (Grant builder priv role grantOption) of
        (Some err, db') \<Rightarrow> (Some err, db')
      | (None, db') \<Rightarrow> createGenericGrantRolesAndShares db' builder priv grantOption rs)"

definition createGenericGrant :: "ResourceData \<Rightarrow> Meta \<Rightarrow> GrantBuilder \<Rightarrow> error option \<times> Meta" where
  "createGenericGrant d db builder =
     createGenericGrantRolesAndShares db builder (privilege d) (with_grant_option d) (roles d)"

fun deleteGenericGrantRolesAndShares ::
  "Meta \<Rightarrow> GrantBuilder \<Rightarrow> string \<Rightarrow> string list \<Rightarrow> error option \<times> Meta" where
  "deleteGenericGrantRolesAndShares db builder priv [] = (None, db)"
| "deleteGenericGrantRolesAndShares db builder priv (role # rs) =
     (case Exec db (Revoke builder priv role) of
        (Some err, db') \<Rightarrow> (Some err, db')
      | (None, db') \<Rightarrow> deleteGenericGrantRolesAndShares db' builder priv rs)"

definition changeDiff :: "ResourceData \<Rightarrow> string list \<times> string list" where
  "changeDiff d =
     (filter (\<lambda>r. r \<notin> set (roles_prior d)) (roles d),
      filter (\<lambda>r. r \<notin> set (roles d)) (roles_prior d))"

definition readGenericGrant ::
  "(ResourceData \<Rightarrow> (string \<times> string \<times> bool) list \<Rightarrow> ResourceData) \<Rightarrow>
   ResourceData \<Rightarrow> Meta \<Rightarrow> GrantBuilder \<Rightarrow> bool \<Rightarrow> error option \<times> ResourceData \<times> Meta" where
  "readGenericGrant reconcile d db builder futureObjects =
     (case Query db (Show builder) of
        (ErrNoRows, db') \<Rightarrow> (None, SetId d [], db')
      | (query_error msg, db') \<Rightarrow> (Some (driver_error msg), d, db')
      | (Rows rs, db') \<Rightarrow> (None, reconcile d rs, db'))"

section \<open>The stream grant resource\<close>

text \<open>The builder the four entry points select from the object name.\<close>

definition builder_for :: "bool \<Rightarrow> string \<Rightarrow> string \<Rightarrow> string \<Rightarrow> GrantBuilder" where
  "builder_for onFuture databaseName schemaName streamName =
     (if onFuture then FutureStreamGrant databaseName schemaName
      else StreamGrant databaseName schemaName streamName)"

text \<open>
  \<^verbatim>\<open>ReadStreamGrant\<close>. An entry point ends with \<^verbatim>\<open>nil\<close>, an error or a panic, and leaves
  the resource data and the client as they are at that moment. \<^verbatim>\<open>d.Set\<close> on a key of the
  schema with a value of the key's type returns no error.
\<close>

definition ReadStreamGrant ::
  "(ResourceData \<Rightarrow> (string \<times> string \<times> bool) list \<Rightarrow> ResourceData) \<Rightarrow>
   ResourceData \<Rightarrow> Meta \<Rightarrow> failure option \<times> ResourceData \<times> Meta" where
  "ReadStreamGrant reconcile d db =
     (case parseStreamGrantID (resource_id d) of
        Inl err \<Rightarrow> (Some err, d, db)
      | Inr grantID \<Rightarrow>
          (let d1 = d\<lparr>database_name := DatabaseName grantID\<rparr>;
               d2 = d1\<lparr>schema_name := SchemaName grantID\<rparr>;
               onFuture = (ObjectName grantID = []);
               d3 = d2\<lparr>stream_name := ObjectName grantID\<rparr>;
               d4 = d3\<lparr>on_future := onFuture\<rparr>;
               d5 = d4\<lparr>privilege := Privilege grantID\<rparr>;
               d6 = d5\<lparr>with_grant_option := WithGrantOption grantID\<rparr>;
               builder = builder_for onFuture (DatabaseName grantID) (SchemaName grantID)
                           (ObjectName grantID)
           in case readGenericGrant reconcile d6 db builder onFuture of
                (err, d', db') \<Rightarrow> (map_option Error err, d', db')))"

text \<open>\<^verbatim>\<open>CreateStreamGrant\<close>.\<close>

definition CreateStreamGrant ::
  "(ResourceData \<Rightarrow> (string \<times> string \<times> bool) list \<Rightarrow> ResourceData) \<Rightarrow>
   ResourceData \<Rightarrow> Meta \<Rightarrow> failure option \<times> ResourceData \<times> Meta" where
  "CreateStreamGrant reconcile d db =
     (let streamName = (case GetOk (stream_name d) of (name, ok) \<Rightarrow> if ok then name else []);
          databaseName = database_name d;
          schemaName = schema_name d;
          privilege = privilege d;
          onFuture = on_future d;
          withGrantOption = with_grant_option d;
          roles = roles d
      in if streamName = [] \<and> \<not> onFuture then
           (Some (Error (errors_New ''stream_name must be set unless on_future is true'')), d, db)
         else if streamName \<noteq> [] \<and> onFuture then
           (Some (Error (errors_New ''stream_name must be empty if on_future is true'')), d, db)
         else if schemaName = [] \<and> \<not> onFuture then
           (Some (Error (errors_New ''schema_name must be set unless on_future is true'')), d, db)
         else
           (let builder = builder_for onFuture databaseName schemaName streamName
            in case createGenericGrant d db builder of
                 (Some err, db') \<Rightarrow> (Some (Error err), d, db')
               | (None, db') \<Rightarrow>
                   (let grantID = NewStreamGrantID databaseName schemaName streamName privilege
                                    roles withGrantOption
                    in ReadStreamGrant reconcile (SetId d (StreamGrantID_String grantID)) db')))"

text \<open>\<^verbatim>\<open>UpdateStreamGrant\<close>.\<close>

definition UpdateStreamGrant ::
  "(ResourceData \<Rightarrow> (string \<times> string \<times> bool) list \<Rightarrow> ResourceData) \<Rightarrow>
   ResourceData \<Rightarrow> Meta \<Rightarrow> failure option \<times> ResourceData \<times> Meta" where
  "UpdateStreamGrant reconcile d db =
     (if \<not> HasChange_roles d then (None, d, db)
      else
        (let (rolesToAdd, rolesToRevoke) = (if HasChange_roles d then changeDiff d else ([], []))
         in case parseStreamGrantID (resource_id d) of
              Inl err \<Rightarrow> (Some err, d, db)
            | Inr grantID \<Rightarrow>
                (let onFuture = (ObjectName grantID = []);
                     builder = builder_for onFuture (DatabaseName grantID) (SchemaName grantID)
                                 (ObjectName grantID)
                 in case deleteGenericGrantRolesAndShares db builder (Privilege grantID)
                           rolesToRevoke of
                      (Some err, db1) \<Rightarrow> (Some (Error err), d, db1)
                    | (None, db1) \<Rightarrow>
                        (case createGenericGrantRolesAndShares db1 builder (Privilege grantID)
                                (WithGrantOption grantID) rolesToAdd of
                           (Some err, db2) \<Rightarrow> (Some (Error err), d, db2)
                         | (None, db2) \<Rightarrow> ReadStreamGrant reconcile d db2))))"

section \<open>Sample inputs\<close>

text \<open>
  A client that has sent nothing yet and whose driver reports no error: one that answers
  every query with no grant row, and one that answers every query with the no-rows
  condition. The reconciliation used with them leaves the fields as they are.
\<close>

definition no_exec_error :: "statement list \<Rightarrow> statement \<Rightarrow> string option" where
  "no_exec_error h q = None"

definition no_grant_rows :: "statement list \<Rightarrow> statement \<Rightarrow> query_result" where
  "no_grant_rows h q = Rows []"

definition object_not_found :: "statement list \<Rightarrow> statement \<Rightarrow> query_result" where
  "object_not_found h q = ErrNoRows"

definition sample_db :: Meta where
  "sample_db = \<lparr>issued = [], exec_reply = no_exec_error, query_reply = no_grant_rows\<rparr>"

definition sample_db_not_found :: Meta where
  "sample_db_not_found =
     \<lparr>issued = [], exec_reply = no_exec_error, query_reply = object_not_found\<rparr>"

definition keep_fields :: "ResourceData \<Rightarrow> (string \<times> string \<times> bool) list \<Rightarrow> ResourceData" where
  "keep_fields d rs = d"

text \<open>The declared stream grant of the end-to-end scenario of the specification: the
  privilege \<open>SELECT\<close> on stream \<open>T\<close> of schema \<open>S\<close> of database \<open>D\<close> for the roles
  \<open>R1\<close> and \<open>R2\<close>, not yet created.\<close>

definition sample_grant :: ResourceData where
  "sample_grant =
     \<lparr>resource_id = [], database_name = ''D'', enable_multiple_grants = False,
      on_future = False, privilege = ''SELECT'', roles = [''R1'', ''R2''], roles_prior = [],
      schema_name = ''S'', stream_name = ''T'', with_grant_option = False\<rparr>"

section \<open>Facts about splitting and joining\<close>

text \<open>
  A separator whose bytes are pairwise distinct cannot overlap with a copy of itself, so
  in \<open>f @ sep @ rest\<close> with \<open>f\<close> free of \<open>sep\<close> the leftmost occurrence of \<open>sep\<close> starts
  right after \<open>f\<close>.
\<close>

lemma Contains_iff_sublist: "Contains s sep \<longleftrightarrow> sublist sep s"
  unfolding Contains_def
  by (induction s) (auto simp: sublist_Cons_right)

lemma no_straddle:
  assumes "distinct sep" and "\<not> sublist sep (c # f)"
  shows "\<not> prefix sep (c # f @ sep @ rest)"
proof
  assume "prefix sep (c # f @ sep @ rest)"
  then have "prefix sep ((c # f) @ sep @ rest)" by simp
  then consider "prefix sep (c # f)" | us where "sep = (c # f) @ us" "prefix us (sep @ rest)"
    unfolding prefix_append by blast
  then show False
  proof cases
    case 1
    then have "sublist sep (c # f)" by (rule prefix_imp_sublist)
    with assms show False by simp
  next
    case 2
    show False
    proof (cases us)
      case Nil
      with 2 assms show False by simp
    next
      case (Cons a us')
      with 2 have "a = c" by simp
      with 2 Cons have "sep = c # f @ c # us'" by simp
      then have "\<not> distinct sep" by simp
      with assms(1) show False by simp
    qed
  qed
qed

lemma Index_in_front:
  assumes "distinct sep" and "sep \<noteq> []"
  shows "\<not> sublist sep f \<Longrightarrow> Index (f @ sep @ rest) sep = Some (length f)"
proof (induction f)
  case Nil
  from assms(2) show ?case by (cases sep) simp_all
next
  case (Cons c f)
  from Cons.prems have "\<not> sublist sep f" by (simp add: sublist_Cons_right)
  with Cons.IH have "Index (f @ sep @ rest) sep = Some (length f)" .
  moreover from assms(1) Cons.prems have "\<not> prefix sep (c # f @ sep @ rest)" by (rule no_straddle)
  ultimately show ?case by simp
qed

lemma Split_cons:
  assumes "distinct sep" and "sep \<noteq> []" and "\<not> sublist sep f"
  shows "Split (f @ sep @ rest) sep = f # Split rest sep"
  using assms(2) Index_in_front [OF assms, of rest]
  by (subst Split.simps) simp

lemma Split_cons_char:
  assumes "\<not> sublist [c] f"
  shows "Split (f @ c # rest) [c] = f # Split rest [c]"
  using Split_cons [of "[c]" f rest] assms by simp

lemma Split_single:
  assumes "sep \<noteq> []" and "\<not> sublist sep f"
  shows "Split f sep = [f]"
  using assms Contains_iff_sublist [of f sep]
  by (subst Split.simps) (simp add: Contains_def)

lemma not_sublist_glue:
  assumes "c \<notin> set sep" and "\<not> sublist sep a" and "\<not> sublist sep b"
  shows "\<not> sublist sep (a @ c # b)"
proof
  assume "sublist sep (a @ c # b)"
  then consider "sublist sep a" | "sublist sep (c # b)"
    | x1 x2 where "sep = x1 @ x2" "suffix x1 a" "prefix x2 (c # b)"
    unfolding sublist_append by blast
  then show False
  proof cases
    case 1
    with assms show False by simp
  next
    case 2
    then have "prefix sep (c # b)" using assms(3) by (simp add: sublist_Cons_right)
    with assms(1,3) show False by (cases sep) auto
  next
    case 3
    show False
    proof (cases x2)
      case Nil
      with 3 have "sublist sep a" by simp
      with assms show False by simp
    next
      case (Cons y ys)
      with 3 have "y = c" by simp
      with 3 Cons assms(1) show False by simp
    qed
  qed
qed

lemma Join_Cons2: "Join (x # y # ys) sep = x @ sep @ Join (y # ys) sep"
  by (cases ys) simp_all

lemma not_sublist_Join:
  assumes "c \<notin> set sep" and "sep \<noteq> []"
  shows "\<forall>r\<in>set rs. \<not> sublist sep r \<Longrightarrow> \<not> sublist sep (Join rs [c])"
proof (induction rs rule: induct_list012)
  case 1
  with assms show ?case by simp
next
  case (2 x)
  then show ?case by simp
next
  case (3 x y zs)
  then have "\<not> sublist sep x" and "\<not> sublist sep (Join (y # zs) [c])" by simp_all
  with assms(1) have "\<not> sublist sep (x @ c # Join (y # zs) [c])" by (rule not_sublist_glue)
  then show ?case by (simp add: Join_Cons2 del: Join.simps)
qed

lemma Split_Join:
  "rs \<noteq> [] \<Longrightarrow> \<forall>r\<in>set rs. \<not> sublist [c] r \<Longrightarrow> Split (Join rs [c]) [c] = rs"
proof (induction rs rule: induct_list012)
  case 1
  then show ?case by simp
next
  case (2 x)
  then show ?case by (simp add: Split_single)
next
  case (3 x y zs)
  then have "\<not> sublist [c] x" and "Split (Join (y # zs) [c]) [c] = y # zs" by simp_all
  then show ?case by (simp add: Join_Cons2 Split_cons_char del: Join.simps)
qed

lemma snowflake_facts:
  "distinct snowflake" "snowflake \<noteq> []" "CHR '','' \<notin> set snowflake" "CHR ''|'' \<notin> set snowflake"
  "\<not> sublist snowflake (Sprintf_bool b)"
  by (simp_all add: snowflake_def Sprintf_bool_def sublist_Cons_right)

lemma Sprintf_bool_true: "Sprintf_bool b = ''true'' \<longleftrightarrow> b"
  by (simp add: Sprintf_bool_def)

lemma Split_nonempty: "Split s sep = [] \<Longrightarrow> s = [] \<and> sep = []"
  by (subst (asm) Split.simps) (simp split: if_splits option.splits)

lemma Join_eq_Nil: "Join rs [c] = [] \<longleftrightarrow> rs = [] \<or> rs = [[]]"
  by (induction rs rule: induct_list012) (simp_all add: Join_Cons2 del: Join.simps(3))

lemma roles_roundtrip:
  assumes "rs \<noteq> [[]]" and "\<forall>r\<in>set rs. \<not> sublist [c] r"
  shows "SplitStringToSlice (Join rs [c]) [c] = rs"
proof (cases "rs = []")
  case True
  then show ?thesis by (simp add: SplitStringToSlice_def)
next
  case False
  with assms(1) have "Join rs [c] \<noteq> []" by (simp add: Join_eq_Nil)
  moreover from False assms(2) have "Split (Join rs [c]) [c] = rs" by (rule Split_Join)
  ultimately show ?thesis by (simp add: SplitStringToSlice_def)
qed

lemma Split_six:
  assumes "\<not> sublist snowflake a" "\<not> sublist snowflake b" "\<not> sublist snowflake c"
    "\<not> sublist snowflake d" "\<not> sublist snowflake e" "\<not> sublist snowflake f"
  shows "Split (a @ snowflake @ b @ snowflake @ c @ snowflake @ d @ snowflake @ e @ snowflake @ f)
           snowflake = [a, b, c, d, e, f]"
  using assms by (simp add: Split_cons Split_single snowflake_facts)

lemma parse_current:
  assumes "Contains s snowflake" and "Split s snowflake = [a, b, c, d, e, f]"
  shows "parseStreamGrantID s =
    Inr \<lparr>DatabaseName = a, SchemaName = b, ObjectName = c, Privilege = d,
         Roles = SplitStringToSlice f '','', WithGrantOption = (e = ''true'')\<rparr>"
  using assms by (simp add: parseStreamGrantID_def index_at_def and_then_def)

lemma index_at_in_range: "i < length a \<Longrightarrow> index_at a i = Inr (a ! i)"
  by (simp add: index_at_def)

lemma index_at_past_end: "index_at a (length a) = Inl (index_out_of_range (length a) (length a))"
  by (simp add: index_at_def)

lemma and_then_simps: "and_then (Inr x) f = f x" "and_then (Inl e) f = Inl e"
  by (simp_all add: and_then_def)

lemma Split_pipes:
  assumes "\<not> sublist ''|'' a" "\<not> sublist ''|'' b" "\<not> sublist ''|'' c" "\<not> sublist ''|'' d"
    "\<not> sublist ''|'' e"
  shows "Split (a @ ''|'' @ b @ ''|'' @ c @ ''|'' @ d @ ''|'' @ e) ''|'' = [a, b, c, d, e]"
  using assms by (simp add: Split_cons_char Split_single)

lemma no_snowflake_in_pipes:
  assumes "\<not> sublist snowflake a" "\<not> sublist snowflake b" "\<not> sublist snowflake c"
    "\<not> sublist snowflake d" "\<not> sublist snowflake e"
  shows "\<not> sublist snowflake (a @ ''|'' @ b @ ''|'' @ c @ ''|'' @ d @ ''|'' @ e)"
proof -
  note glue = not_sublist_glue [OF snowflake_facts(4)]
  from assms(4,5) have "\<not> sublist snowflake (d @ CHR ''|'' # e)" by (rule glue)
  with assms(3) have "\<not> sublist snowflake (c @ CHR ''|'' # d @ CHR ''|'' # e)" by (rule glue)
  with assms(2) have "\<not> sublist snowflake (b @ CHR ''|'' # c @ CHR ''|'' # d @ CHR ''|'' # e)"
    by (rule glue)
  with assms(1) have
    "\<not> sublist snowflake (a @ CHR ''|'' # b @ CHR ''|'' # c @ CHR ''|'' # d @ CHR ''|'' # e)"
    by (rule glue)
  then show ?thesis by simp
qed

lemma parse_legacy:
  assumes "\<not> Contains s snowflake" and "5 \<le> length (Split s ''|'')"
  shows "parseStreamGrantID s =
    Inr \<lparr>DatabaseName = Split s ''|'' ! 0, SchemaName = Split s ''|'' ! 1,
         ObjectName = Split s ''|'' ! 2, Privilege = Split s ''|'' ! 3,
         Roles = [], WithGrantOption = (Split s ''|'' ! 4 = ''true'')\<rparr>"
proof -
  from assms(2) have "0 < length (Split s ''|'')" "1 < length (Split s ''|'')"
    "2 < length (Split s ''|'')" "3 < length (Split s ''|'')" "4 < length (Split s ''|'')"
    by linarith+
  with assms(1) show ?thesis
    by (simp add: parseStreamGrantID_def Let_def index_at_in_range and_then_simps)
qed

lemma parse_legacy_short:
  assumes "\<not> Contains s snowflake" and "length (Split s ''|'') < 5"
  shows "parseStreamGrantID s =
    Inl (index_out_of_range (length (Split s ''|'')) (length (Split s ''|'')))"
proof -
  define n where "n = length (Split s ''|'')"
  have "Split s ''|'' \<noteq> []" using Split_nonempty [of s "''|''"] by auto
  then have "0 < n" by (simp add: n_def)
  with assms(2) have "n = 1 \<or> n = 2 \<or> n = 3 \<or> n = 4" unfolding n_def by linarith
  then show ?thesis
    using assms(1) index_at_past_end [of "Split s ''|''"]
    unfolding n_def [symmetric] parseStreamGrantID_def Let_def
    by (auto simp: index_at_in_range and_then_simps n_def [symmetric])
qed

lemma parse_current_six:
  assumes "Contains s snowflake" and "length (Split s snowflake) = 6"
  shows "parseStreamGrantID s =
    Inr \<lparr>DatabaseName = Split s snowflake ! 0, SchemaName = Split s snowflake ! 1,
         ObjectName = Split s snowflake ! 2, Privilege = Split s snowflake ! 3,
         Roles = SplitStringToSlice (Split s snowflake ! 5) '','',
         WithGrantOption = (Split s snowflake ! 4 = ''true'')\<rparr>"
  using assms by (simp add: parseStreamGrantID_def Let_def index_at_in_range and_then_simps)

lemma parse_current_not_six:
  assumes "Contains s snowflake" and "length (Split s snowflake) \<noteq> 6"
  shows "parseStreamGrantID s = Inl (Error (unexpected_ID_parts (length (Split s snowflake))))"
  using assms by (simp add: parseStreamGrantID_def Let_def)

section \<open>The identifier codec: encoding and decoding\<close>

text \<open>
  C1, as amended. An identifier is encoded by \<open>StreamGrantID_String\<close> and decoded by
  \<open>parseStreamGrantID\<close>. If the database, schema, object and privilege fields and every
  role name are free of the snowflake separator, no role name contains a comma, and the
  role list is not the list of one empty role name, then decoding the encoded identifier
  returns the identifier itself, all six fields equal. This covers the empty role list,
  which is encoded as an empty last segment and decoded as no role.
\<close>

theorem parse_String_roundtrip:
  assumes "\<not> Contains (DatabaseName v) snowflake" and "\<not> Contains (SchemaName v) snowflake"
    and "\<not> Contains (ObjectName v) snowflake" and "\<not> Contains (Privilege v) snowflake"
    and "\<forall>r\<in>set (Roles v). \<not> Contains r snowflake \<and> \<not> Contains r '',''"
    and "Roles v \<noteq> ['''']"
  shows "parseStreamGrantID (StreamGrantID_String v) = Inr v"
proof -
  let ?roles = "Join (Roles v) '',''"
  let ?s = "StreamGrantID_String v"
  from assms(5) have "\<not> sublist snowflake ?roles"
    by (intro not_sublist_Join snowflake_facts) (simp add: Contains_iff_sublist)
  with assms(1-4) have parts: "Split ?s snowflake =
      [DatabaseName v, SchemaName v, ObjectName v, Privilege v, Sprintf_bool (WithGrantOption v), ?roles]"
    unfolding StreamGrantID_String_def Let_def
    by (intro Split_six snowflake_facts) (simp_all add: Contains_iff_sublist)
  have "Contains ?s snowflake"
    by (simp add: StreamGrantID_String_def Contains_iff_sublist)
  from this parts have "parseStreamGrantID ?s =
      Inr \<lparr>DatabaseName = DatabaseName v, SchemaName = SchemaName v, ObjectName = ObjectName v,
        Privilege = Privilege v, Roles = SplitStringToSlice ?roles '','',
        WithGrantOption = (Sprintf_bool (WithGrantOption v) = ''true'')\<rparr>"
    by (rule parse_current)
  moreover from assms(5,6) have "SplitStringToSlice ?roles '','' = Roles v"
    by (intro roles_roundtrip) (simp_all add: Contains_iff_sublist)
  ultimately show ?thesis by (simp add: Sprintf_bool_true)
qed

text \<open>The round trip at an identifier with two roles, and at one with no role.\<close>

theorem parse_String_roundtrip_witness:
  "\<not> Contains ''D'' snowflake \<and> \<not> Contains ''S'' snowflake \<and> \<not> Contains ''T'' snowflake
   \<and> \<not> Contains ''SELECT'' snowflake
   \<and> \<not> Contains ''R1'' snowflake \<and> \<not> Contains ''R1'' '',''
   \<and> \<not> Contains ''R2'' snowflake \<and> \<not> Contains ''R2'' '',''
   \<and> [''R1'', ''R2''] \<noteq> ['''']
   \<and> parseStreamGrantID (StreamGrantID_String
        \<lparr>DatabaseName = ''D'', SchemaName = ''S'', ObjectName = ''T'', Privilege = ''SELECT'',
         Roles = [''R1'', ''R2''], WithGrantOption = True\<rparr>)
      = Inr \<lparr>DatabaseName = ''D'', SchemaName = ''S'', ObjectName = ''T'', Privilege = ''SELECT'',
         Roles = [''R1'', ''R2''], WithGrantOption = True\<rparr>
   \<and> parseStreamGrantID (StreamGrantID_String
        \<lparr>DatabaseName = ''D'', SchemaName = ''S'', ObjectName = ''T'', Privilege = ''SELECT'',
         Roles = [], WithGrantOption = False\<rparr>)
      = Inr \<lparr>DatabaseName = ''D'', SchemaName = ''S'', ObjectName = ''T'', Privilege = ''SELECT'',
         Roles = [], WithGrantOption = False\<rparr>"
  using parse_String_roundtrip [of "\<lparr>DatabaseName = ''D'', SchemaName = ''S'', ObjectName = ''T'',
         Privilege = ''SELECT'', Roles = [''R1'', ''R2''], WithGrantOption = True\<rparr>"]
    parse_String_roundtrip [of "\<lparr>DatabaseName = ''D'', SchemaName = ''S'', ObjectName = ''T'',
         Privilege = ''SELECT'', Roles = [], WithGrantOption = False\<rparr>"]
  by (simp add: Contains_def snowflake_def)

text \<open>
  C1 as stated fails: an identifier whose role list is the single role with the empty
  name has all fields free of the separator and no comma in a role name, yet it is encoded
  with an empty last segment, which decodes to no role.
\<close>

theorem parse_String_roundtrip_counterexample:
  "\<not> Contains ''D'' snowflake \<and> \<not> Contains ''S'' snowflake \<and> \<not> Contains ''T'' snowflake
   \<and> \<not> Contains ''SELECT'' snowflake \<and> \<not> Contains '''' snowflake \<and> \<not> Contains '''' '',''
   \<and> parseStreamGrantID (StreamGrantID_String
        \<lparr>DatabaseName = ''D'', SchemaName = ''S'', ObjectName = ''T'', Privilege = ''SELECT'',
         Roles = [''''], WithGrantOption = False\<rparr>)
      = Inr \<lparr>DatabaseName = ''D'', SchemaName = ''S'', ObjectName = ''T'', Privilege = ''SELECT'',
         Roles = [], WithGrantOption = False\<rparr>
   \<and> parseStreamGrantID (StreamGrantID_String
        \<lparr>DatabaseName = ''D'', SchemaName = ''S'', ObjectName = ''T'', Privilege = ''SELECT'',
         Roles = [''''], WithGrantOption = False\<rparr>)
      \<noteq> Inr \<lparr>DatabaseName = ''D'', SchemaName = ''S'', ObjectName = ''T'', Privilege = ''SELECT'',
         Roles = [''''], WithGrantOption = False\<rparr>"
  by (simp add: StreamGrantID_String_def parseStreamGrantID_def Contains_def snowflake_def
      Split.simps index_at_def and_then_def Sprintf_bool_def SplitStringToSlice_def)

text \<open>
  C2. The claim: an identifier without the snowflake separator that has fewer than five
  segments between pipes makes the legacy path return an error value, without a panic.
  The code does not check the number of segments on this path: it indexes the segments
  0 to 4, and the first index past the end panics. This is what the code does on every
  such input.
\<close>

theorem parse_legacy_short_input_panics:
  assumes "\<not> Contains s snowflake" and "length (Split s ''|'') < 5"
  shows "parseStreamGrantID s =
    Inl (index_out_of_range (length (Split s ''|'')) (length (Split s ''|'')))"
  using assms by (rule parse_legacy_short)

text \<open>The legacy path at \<open>a|b\<close>: two segments, and indexing at 2 panics.\<close>

theorem parse_legacy_short_input_panics_witness:
  "\<not> Contains ''a|b'' snowflake \<and> length (Split ''a|b'' ''|'') < 5
   \<and> length (Split ''a|b'' ''|'') = 2
   \<and> parseStreamGrantID ''a|b'' = Inl (index_out_of_range 2 2)"
  using parse_legacy_short_input_panics [of "''a|b''"]
  by (simp add: Contains_def snowflake_def Split.simps)

text \<open>
  C3. For an identifier that contains the snowflake separator: if splitting it on the
  separator does not give six segments, \<open>parseStreamGrantID\<close> returns the malformed
  identifier error carrying the number of segments found, and does not panic; if it gives
  six segments, \<open>parseStreamGrantID\<close> returns an identifier.
\<close>

theorem parse_current_segment_count:
  assumes "Contains s snowflake"
  shows "(length (Split s snowflake) \<noteq> 6 \<longrightarrow>
            parseStreamGrantID s = Inl (Error (unexpected_ID_parts (length (Split s snowflake)))))
       \<and> (length (Split s snowflake) = 6 \<longrightarrow> (\<exists>v. parseStreamGrantID s = Inr v))"
  using assms parse_current_six [of s] parse_current_not_six [of s] by simp

text \<open>An identifier of two segments, and one of six.\<close>

theorem parse_current_segment_count_witness:
  "Contains (''a'' @ snowflake @ ''b'') snowflake
   \<and> length (Split (''a'' @ snowflake @ ''b'') snowflake) \<noteq> 6
   \<and> parseStreamGrantID (''a'' @ snowflake @ ''b'') = Inl (Error (unexpected_ID_parts 2))
   \<and> Contains (''D'' @ snowflake @ ''S'' @ snowflake @ ''T'' @ snowflake @ ''SELECT'' @ snowflake
        @ ''false'' @ snowflake @ ''R1,R2'') snowflake
   \<and> length (Split (''D'' @ snowflake @ ''S'' @ snowflake @ ''T'' @ snowflake @ ''SELECT''
        @ snowflake @ ''false'' @ snowflake @ ''R1,R2'') snowflake) = 6
   \<and> (\<exists>v. parseStreamGrantID (''D'' @ snowflake @ ''S'' @ snowflake @ ''T'' @ snowflake
        @ ''SELECT'' @ snowflake @ ''false'' @ snowflake @ ''R1,R2'') = Inr v)"
  using parse_current_segment_count [of "''a'' @ snowflake @ ''b''"]
    parse_current_segment_count [of "''D'' @ snowflake @ ''S'' @ snowflake @ ''T'' @ snowflake
        @ ''SELECT'' @ snowflake @ ''false'' @ snowflake @ ''R1,R2''"]
  by (simp add: Contains_def snowflake_def Split.simps)

text \<open>
  C4. A legacy identifier \<open>database|schema|object|privilege|withGrantOption\<close>, its five
  fields free of the pipe and of the snowflake separator, is decoded without error into
  the identifier with these database, schema, object and privilege fields in this order,
  no role, and the grant option that is set exactly if the fifth field is \<open>true\<close>.
\<close>

theorem parse_legacy_five_fields:
  assumes "\<not> Contains db ''|''" and "\<not> Contains sch ''|''" and "\<not> Contains obj ''|''"
    and "\<not> Contains priv ''|''" and "\<not> Contains w ''|''"
    and "\<not> Contains db snowflake" and "\<not> Contains sch snowflake" and "\<not> Contains obj snowflake"
    and "\<not> Contains priv snowflake" and "\<not> Contains w snowflake"
  shows "parseStreamGrantID (db @ ''|'' @ sch @ ''|'' @ obj @ ''|'' @ priv @ ''|'' @ w) =
    Inr \<lparr>DatabaseName = db, SchemaName = sch, ObjectName = obj, Privilege = priv,
         Roles = [], WithGrantOption = (w = ''true'')\<rparr>"
proof -
  let ?s = "db @ ''|'' @ sch @ ''|'' @ obj @ ''|'' @ priv @ ''|'' @ w"
  from assms(1-5) have parts: "Split ?s ''|'' = [db, sch, obj, priv, w]"
    by (intro Split_pipes) (simp_all add: Contains_iff_sublist)
  from assms(6-10) have "\<not> sublist snowflake ?s"
    by (intro no_snowflake_in_pipes) (simp_all add: Contains_iff_sublist)
  then have "\<not> Contains ?s snowflake" by (simp add: Contains_iff_sublist)
  moreover from parts have "5 \<le> length (Split ?s ''|'')" by simp
  ultimately have "parseStreamGrantID ?s =
    Inr \<lparr>DatabaseName = Split ?s ''|'' ! 0, SchemaName = Split ?s ''|'' ! 1,
         ObjectName = Split ?s ''|'' ! 2, Privilege = Split ?s ''|'' ! 3,
         Roles = [], WithGrantOption = (Split ?s ''|'' ! 4 = ''true'')\<rparr>"
    by (rule parse_legacy)
  with parts show ?thesis by simp
qed

text \<open>The legacy identifier \<open>test_db|test_schema|good_name|SELECT|true\<close>.\<close>

theorem parse_legacy_five_fields_witness:
  "\<not> Contains ''test_db'' ''|'' \<and> \<not> Contains ''test_schema'' ''|''
   \<and> \<not> Contains ''good_name'' ''|'' \<and> \<not> Contains ''SELECT'' ''|'' \<and> \<not> Contains ''true'' ''|''
   \<and> \<not> Contains ''test_db'' snowflake \<and> \<not> Contains ''test_schema'' snowflake
   \<and> \<not> Contains ''good_name'' snowflake \<and> \<not> Contains ''SELECT'' snowflake
   \<and> \<not> Contains ''true'' snowflake
   \<and> parseStreamGrantID ''test_db|test_schema|good_name|SELECT|true'' =
       Inr \<lparr>DatabaseName = ''test_db'', SchemaName = ''test_schema'', ObjectName = ''good_name'',
            Privilege = ''SELECT'', Roles = [], WithGrantOption = True\<rparr>"
  using parse_legacy_five_fields [of "''test_db''" "''test_schema''" "''good_name''" "''SELECT''"
      "''true''"]
  by (simp add: Contains_def snowflake_def)

text \<open>
  C8, as amended. Decoding never fails because of the segment of the grant option.
  Whether \<open>parseStreamGrantID\<close> returns an identifier depends on the number of segments
  alone: six in the current format, at least five in the legacy format. Whenever an
  identifier is returned, its grant option is set exactly if the fifth segment is the
  string \<open>true\<close>; every other segment, a boolean or not, gives an unset grant option.
\<close>

theorem parse_grant_option_segment:
  "((\<exists>u. parseStreamGrantID s = Inr u) \<longleftrightarrow>
      (if Contains s snowflake then length (Split s snowflake) = 6
       else 5 \<le> length (Split s ''|'')))
   \<and> (parseStreamGrantID s = Inr v \<longrightarrow>
      WithGrantOption v =
        (Split s (if Contains s snowflake then snowflake else ''|'') ! 4 = ''true''))"
proof (cases "Contains s snowflake")
  case True
  show ?thesis
  proof (cases "length (Split s snowflake) = 6")
    case six: True
    with True show ?thesis using parse_current_six [of s] by auto
  next
    case False
    with True show ?thesis using parse_current_not_six [of s] by auto
  qed
next
  case False
  show ?thesis
  proof (cases "5 \<le> length (Split s ''|'')")
    case True
    with False show ?thesis using parse_legacy [of s] by auto
  next
    case short: False
    with False show ?thesis using parse_legacy_short [of s] by auto
  qed
qed

text \<open>An identifier of six segments whose fifth segment is \<open>maybe\<close>.\<close>

theorem parse_grant_option_segment_witness:
  "parseStreamGrantID (''D'' @ snowflake @ ''S'' @ snowflake @ ''T'' @ snowflake @ ''SELECT''
        @ snowflake @ ''maybe'' @ snowflake @ ''R1'')
     = Inr \<lparr>DatabaseName = ''D'', SchemaName = ''S'', ObjectName = ''T'', Privilege = ''SELECT'',
         Roles = [''R1''], WithGrantOption = False\<rparr>
   \<and> WithGrantOption \<lparr>DatabaseName = ''D'', SchemaName = ''S'', ObjectName = ''T'',
         Privilege = ''SELECT'', Roles = [''R1''], WithGrantOption = False\<rparr>
     = (Split (''D'' @ snowflake @ ''S'' @ snowflake @ ''T'' @ snowflake @ ''SELECT''
        @ snowflake @ ''maybe'' @ snowflake @ ''R1'') snowflake ! 4 = ''true'')"
  using parse_grant_option_segment [of "''D'' @ snowflake @ ''S'' @ snowflake @ ''T'' @ snowflake
        @ ''SELECT'' @ snowflake @ ''maybe'' @ snowflake @ ''R1''"
      "\<lparr>DatabaseName = ''D'', SchemaName = ''S'', ObjectName = ''T'',
         Privilege = ''SELECT'', Roles = [''R1''], WithGrantOption = False\<rparr>"]
  by (simp add: parseStreamGrantID_def Contains_def snowflake_def Split.simps index_at_def
      and_then_def SplitStringToSlice_def)

text \<open>
  C8 as stated fails: the fifth segment \<open>maybe\<close> is no boolean, and the identifier is
  decoded all the same, with the grant option unset.
\<close>

theorem parse_grant_option_segment_counterexample:
  "parseStreamGrantID (''D'' @ snowflake @ ''S'' @ snowflake @ ''T'' @ snowflake @ ''SELECT''
        @ snowflake @ ''maybe'' @ snowflake @ ''R1'')
     = Inr \<lparr>DatabaseName = ''D'', SchemaName = ''S'', ObjectName = ''T'', Privilege = ''SELECT'',
         Roles = [''R1''], WithGrantOption = False\<rparr>"
  by (simp add: parseStreamGrantID_def Contains_def snowflake_def Split.simps index_at_def
      and_then_def SplitStringToSlice_def)

text \<open>
  C10. The encoding is not injective on role lists. The identifier with the single role
  \<open>a,b\<close> and the identifier with the two roles \<open>a\<close> and \<open>b\<close> differ, and
  \<open>StreamGrantID_String\<close> gives the same string for both; decoding this string gives the
  two roles, so the round trip changes the role list of the first.
\<close>

theorem String_not_injective_on_roles:
  "\<lparr>DatabaseName = ''D'', SchemaName = ''S'', ObjectName = ''T'', Privilege = ''SELECT'',
     Roles = [''a,b''], WithGrantOption = False\<rparr>
     \<noteq> \<lparr>DatabaseName = ''D'', SchemaName = ''S'', ObjectName = ''T'', Privilege = ''SELECT'',
         Roles = [''a'', ''b''], WithGrantOption = False\<rparr>
   \<and> StreamGrantID_String
        \<lparr>DatabaseName = ''D'', SchemaName = ''S'', ObjectName = ''T'', Privilege = ''SELECT'',
         Roles = [''a,b''], WithGrantOption = False\<rparr>
     = StreamGrantID_String
        \<lparr>DatabaseName = ''D'', SchemaName = ''S'', ObjectName = ''T'', Privilege = ''SELECT'',
         Roles = [''a'', ''b''], WithGrantOption = False\<rparr>
   \<and> parseStreamGrantID (StreamGrantID_String
        \<lparr>DatabaseName = ''D'', SchemaName = ''S'', ObjectName = ''T'', Privilege = ''SELECT'',
         Roles = [''a,b''], WithGrantOption = False\<rparr>)
     = Inr \<lparr>DatabaseName = ''D'', SchemaName = ''S'', ObjectName = ''T'', Privilege = ''SELECT'',
         Roles = [''a'', ''b''], WithGrantOption = False\<rparr>"
  by (simp add: StreamGrantID_String_def parseStreamGrantID_def Contains_def snowflake_def
      Split.simps index_at_def and_then_def Sprintf_bool_def SplitStringToSlice_def)

section \<open>Facts about the life cycle\<close>

lemma prefix_take: "prefix ys xs \<Longrightarrow> take (length ys) (xs @ rest) = ys"
  by (auto simp: prefix_def)

lemma prefix_take_after: "prefix zs ys \<Longrightarrow> take (length xs + length zs) (xs @ ys @ rest) = xs @ zs"
  by (auto simp: prefix_def)

lemma create_loop_issued:
  "createGenericGrantRolesAndShares db b p w rs = (e, db') \<Longrightarrow>
     \<exists>ys. issued db' = issued db @ ys \<and> prefix ys (map (\<lambda>r. Grant b p r w) rs)
          \<and> (e = None \<longrightarrow> ys = map (\<lambda>r. Grant b p r w) rs)"
proof (induction rs arbitrary: db)
  case Nil
  then show ?case by simp
next
  case (Cons r rs)
  let ?db1 = "db\<lparr>issued := issued db @ [Grant b p r w]\<rparr>"
  show ?case
  proof (cases "exec_reply db (issued db) (Grant b p r w)")
    case None
    with Cons.prems have "createGenericGrantRolesAndShares ?db1 b p w rs = (e, db')"
      by (simp add: Exec_def)
    from Cons.IH [OF this] obtain ys where
      "issued db' = issued ?db1 @ ys" "prefix ys (map (\<lambda>r. Grant b p r w) rs)"
      "e = None \<longrightarrow> ys = map (\<lambda>r. Grant b p r w) rs" by blast
    then show ?thesis by (intro exI [of _ "Grant b p r w # ys"]) simp
  next
    case (Some msg)
    with Cons.prems have "e = Some (driver_error msg)" "db' = ?db1"
      by (simp_all add: Exec_def)
    then show ?thesis by (intro exI [of _ "[Grant b p r w]"]) simp
  qed
qed

lemma delete_loop_issued:
  "deleteGenericGrantRolesAndShares db b p rs = (e, db') \<Longrightarrow>
     \<exists>ys. issued db' = issued db @ ys \<and> prefix ys (map (Revoke b p) rs)
          \<and> (e = None \<longrightarrow> ys = map (Revoke b p) rs)"
proof (induction rs arbitrary: db)
  case Nil
  then show ?case by simp
next
  case (Cons r rs)
  let ?db1 = "db\<lparr>issued := issued db @ [Revoke b p r]\<rparr>"
  show ?case
  proof (cases "exec_reply db (issued db) (Revoke b p r)")
    case None
    with Cons.prems have "deleteGenericGrantRolesAndShares ?db1 b p rs = (e, db')"
      by (simp add: Exec_def)
    from Cons.IH [OF this] obtain ys where
      "issued db' = issued ?db1 @ ys" "prefix ys (map (Revoke b p) rs)"
      "e = None \<longrightarrow> ys = map (Revoke b p) rs" by blast
    then show ?thesis by (intro exI [of _ "Revoke b p r # ys"]) simp
  next
    case (Some msg)
    with Cons.prems have "e = Some (driver_error msg)" "db' = ?db1"
      by (simp_all add: Exec_def)
    then show ?thesis by (intro exI [of _ "[Revoke b p r]"]) simp
  qed
qed

lemma create_loop_error:
  "createGenericGrantRolesAndShares db b p w rs = (Some err, db') \<Longrightarrow> \<exists>msg. err = driver_error msg"
proof (induction rs arbitrary: db)
  case Nil
  then show ?case by simp
next
  case (Cons r rs)
  then show ?case
    by (cases "exec_reply db (issued db) (Grant b p r w)") (auto simp: Exec_def)
qed

lemma create_loop_quiet:
  "\<forall>h q. exec_reply db h q = None \<Longrightarrow>
     createGenericGrantRolesAndShares db b p w rs =
       (None, db\<lparr>issued := issued db @ map (\<lambda>r. Grant b p r w) rs\<rparr>)"
  by (induction rs arbitrary: db) (simp_all add: Exec_def)

lemma delete_loop_quiet:
  "\<forall>h q. exec_reply db h q = None \<Longrightarrow>
     deleteGenericGrantRolesAndShares db b p rs =
       (None, db\<lparr>issued := issued db @ map (Revoke b p) rs\<rparr>)"
  by (induction rs arbitrary: db) (simp_all add: Exec_def)

lemma parse_failure_kinds:
  assumes "parseStreamGrantID s = Inl f"
  shows "f \<noteq> Error (errors_New msg)"
proof (cases "Contains s snowflake")
  case True
  with assms show ?thesis
    using parse_current_six [of s] parse_current_not_six [of s]
    by (cases "length (Split s snowflake) = 6") auto
next
  case False
  with assms show ?thesis
    using parse_legacy [of s] parse_legacy_short [of s]
    by (cases "5 \<le> length (Split s ''|'')") auto
qed

lemma Read_issued:
  assumes "parseStreamGrantID (resource_id d) = Inr grantID"
  shows "issued (snd (snd (ReadStreamGrant reconcile d db))) =
    issued db @ [Show (builder_for (ObjectName grantID = []) (DatabaseName grantID)
                   (SchemaName grantID) (ObjectName grantID))]"
  using assms
  by (simp add: ReadStreamGrant_def readGenericGrant_def Query_def Let_def
      split: query_result.splits)

lemma Read_no_validation_error:
  "fst (ReadStreamGrant reconcile d db) \<noteq> Some (Error (errors_New msg))"
proof (cases "parseStreamGrantID (resource_id d)")
  case (Inl f)
  then show ?thesis using parse_failure_kinds [OF Inl, of msg]
    by (simp add: ReadStreamGrant_def)
next
  case (Inr grantID)
  then show ?thesis
    by (simp add: ReadStreamGrant_def readGenericGrant_def Query_def Let_def
        split: query_result.splits)
qed

lemma GetOk_value: "(case GetOk v of (name, ok) \<Rightarrow> if ok then name else []) = v"
  by (simp add: GetOk_def)

lemma Create_after_validation:
  assumes "\<not> (stream_name d = [] \<and> \<not> on_future d)" and "\<not> (stream_name d \<noteq> [] \<and> on_future d)"
    and "\<not> (schema_name d = [] \<and> \<not> on_future d)"
  shows "CreateStreamGrant reconcile d db =
    (case createGenericGrant d db
            (builder_for (on_future d) (database_name d) (schema_name d) (stream_name d)) of
       (Some err, db') \<Rightarrow> (Some (Error err), d, db')
     | (None, db') \<Rightarrow>
         ReadStreamGrant reconcile
           (SetId d (StreamGrantID_String (NewStreamGrantID (database_name d) (schema_name d)
              (stream_name d) (privilege d) (roles d) (with_grant_option d)))) db')"
  using assms unfolding CreateStreamGrant_def Let_def GetOk_value
  by (cases "stream_name d = []") simp_all

section \<open>The life cycle of a stream grant\<close>

text \<open>
  C5. \<open>CreateStreamGrant\<close> returns an error made by \<^verbatim>\<open>errors.New\<close>, a validation error,
  exactly if the stream name is empty and \<open>on_future\<close> is false, or the stream name is
  not empty and \<open>on_future\<close> is true, or the schema name is empty and \<open>on_future\<close> is
  false. In these cases it returns at once: the resource data and the client are as
  before, so no statement has been sent.
\<close>

theorem CreateStreamGrant_validation:
  "((\<exists>msg. fst (CreateStreamGrant reconcile d db) = Some (Error (errors_New msg))) \<longleftrightarrow>
      (stream_name d = [] \<and> \<not> on_future d) \<or> (stream_name d \<noteq> [] \<and> on_future d)
      \<or> (schema_name d = [] \<and> \<not> on_future d))
   \<and> ((stream_name d = [] \<and> \<not> on_future d) \<or> (stream_name d \<noteq> [] \<and> on_future d)
      \<or> (schema_name d = [] \<and> \<not> on_future d) \<longrightarrow>
        snd (CreateStreamGrant reconcile d db) = (d, db))"
proof (cases "(stream_name d = [] \<and> \<not> on_future d) \<or> (stream_name d \<noteq> [] \<and> on_future d)
      \<or> (schema_name d = [] \<and> \<not> on_future d)")
  case True
  then show ?thesis by (auto simp: CreateStreamGrant_def GetOk_def Let_def)
next
  case False
  let ?b = "builder_for (on_future d) (database_name d) (schema_name d) (stream_name d)"
  from False have run: "CreateStreamGrant reconcile d db =
    (case createGenericGrant d db ?b of
       (Some err, db') \<Rightarrow> (Some (Error err), d, db')
     | (None, db') \<Rightarrow>
         ReadStreamGrant reconcile
           (SetId d (StreamGrantID_String (NewStreamGrantID (database_name d) (schema_name d)
              (stream_name d) (privilege d) (roles d) (with_grant_option d)))) db')"
    by (intro Create_after_validation) auto
  obtain e db' where grants: "createGenericGrant d db ?b = (e, db')" by (cases "createGenericGrant d db ?b")
  have "fst (CreateStreamGrant reconcile d db) \<noteq> Some (Error (errors_New msg))" for msg
  proof (cases e)
    case None
    with run grants show ?thesis by (simp add: Read_no_validation_error)
  next
    case (Some err)
    with grants obtain m where "err = driver_error m"
      unfolding createGenericGrant_def using create_loop_error by blast
    with run grants Some show ?thesis by simp
  qed
  with False show ?thesis by blast
qed

text \<open>Three declarations that fail the validation, one for each case, and the sample
  grant, which passes it.\<close>

theorem CreateStreamGrant_validation_witness:
  "CreateStreamGrant keep_fields (sample_grant\<lparr>stream_name := []\<rparr>) sample_db
     = (Some (Error (errors_New ''stream_name must be set unless on_future is true'')),
        sample_grant\<lparr>stream_name := []\<rparr>, sample_db)
   \<and> CreateStreamGrant keep_fields (sample_grant\<lparr>on_future := True\<rparr>) sample_db
     = (Some (Error (errors_New ''stream_name must be empty if on_future is true'')),
        sample_grant\<lparr>on_future := True\<rparr>, sample_db)
   \<and> CreateStreamGrant keep_fields (sample_grant\<lparr>schema_name := []\<rparr>) sample_db
     = (Some (Error (errors_New ''schema_name must be set unless on_future is true'')),
        sample_grant\<lparr>schema_name := []\<rparr>, sample_db)
   \<and> fst (CreateStreamGrant keep_fields sample_grant sample_db)
       \<noteq> Some (Error (errors_New ''stream_name must be set unless on_future is true''))"
proof -
  have "CreateStreamGrant keep_fields (sample_grant\<lparr>stream_name := []\<rparr>) sample_db
     = (Some (Error (errors_New ''stream_name must be set unless on_future is true'')),
        sample_grant\<lparr>stream_name := []\<rparr>, sample_db)"
    by (simp add: CreateStreamGrant_def GetOk_def Let_def sample_grant_def)
  moreover have "CreateStreamGrant keep_fields (sample_grant\<lparr>on_future := True\<rparr>) sample_db
     = (Some (Error (errors_New ''stream_name must be empty if on_future is true'')),
        sample_grant\<lparr>on_future := True\<rparr>, sample_db)"
    by (simp add: CreateStreamGrant_def GetOk_def Let_def sample_grant_def)
  moreover have "CreateStreamGrant keep_fields (sample_grant\<lparr>schema_name := []\<rparr>) sample_db
     = (Some (Error (errors_New ''schema_name must be set unless on_future is true'')),
        sample_grant\<lparr>schema_name := []\<rparr>, sample_db)"
    by (simp add: CreateStreamGrant_def GetOk_def Let_def sample_grant_def)
  moreover have "fst (CreateStreamGrant keep_fields sample_grant sample_db)
       \<noteq> Some (Error (errors_New ''stream_name must be set unless on_future is true''))"
    using CreateStreamGrant_validation [of keep_fields sample_grant sample_db]
    by (simp add: sample_grant_def)
  ultimately show ?thesis by blast
qed

text \<open>
  C7. If the identifier of the resource decodes and the driver answers the show query
  of the builder with the no-rows condition, \<open>ReadStreamGrant\<close> returns no error and
  leaves the resource without state.
\<close>

theorem ReadStreamGrant_not_found:
  assumes "parseStreamGrantID (resource_id d) = Inr grantID"
    and "query_reply db (issued db)
           (Show (builder_for (ObjectName grantID = []) (DatabaseName grantID)
              (SchemaName grantID) (ObjectName grantID))) = ErrNoRows"
  shows "fst (ReadStreamGrant reconcile d db) = None
       \<and> State (fst (snd (ReadStreamGrant reconcile d db))) = None"
  using assms
  by (simp add: ReadStreamGrant_def readGenericGrant_def Query_def Let_def SetId_def State_def)

text \<open>The sample grant under its legacy identifier, read when the stream is gone.\<close>

theorem ReadStreamGrant_not_found_witness:
  "parseStreamGrantID (resource_id (sample_grant\<lparr>resource_id := ''D|S|T|SELECT|false''\<rparr>))
     = Inr \<lparr>DatabaseName = ''D'', SchemaName = ''S'', ObjectName = ''T'', Privilege = ''SELECT'',
          Roles = [], WithGrantOption = False\<rparr>
   \<and> query_reply sample_db_not_found (issued sample_db_not_found)
       (Show (StreamGrant ''D'' ''S'' ''T'')) = ErrNoRows
   \<and> State (sample_grant\<lparr>resource_id := ''D|S|T|SELECT|false''\<rparr>) \<noteq> None
   \<and> fst (ReadStreamGrant keep_fields (sample_grant\<lparr>resource_id := ''D|S|T|SELECT|false''\<rparr>)
        sample_db_not_found) = None
   \<and> State (fst (snd (ReadStreamGrant keep_fields
        (sample_grant\<lparr>resource_id := ''D|S|T|SELECT|false''\<rparr>) sample_db_not_found))) = None"
proof -
  have parsed: "parseStreamGrantID (resource_id (sample_grant\<lparr>resource_id := ''D|S|T|SELECT|false''\<rparr>))
     = Inr \<lparr>DatabaseName = ''D'', SchemaName = ''S'', ObjectName = ''T'', Privilege = ''SELECT'',
          Roles = [], WithGrantOption = False\<rparr>"
    by (simp add: parseStreamGrantID_def Contains_def snowflake_def Split.simps index_at_def
        and_then_def)
  have reply: "query_reply sample_db_not_found (issued sample_db_not_found)
       (Show (StreamGrant ''D'' ''S'' ''T'')) = ErrNoRows"
    by (simp add: sample_db_not_found_def object_not_found_def)
  have "State (sample_grant\<lparr>resource_id := ''D|S|T|SELECT|false''\<rparr>) \<noteq> None"
    by (simp add: State_def)
  moreover from reply have "fst (ReadStreamGrant keep_fields
        (sample_grant\<lparr>resource_id := ''D|S|T|SELECT|false''\<rparr>) sample_db_not_found) = None
   \<and> State (fst (snd (ReadStreamGrant keep_fields
        (sample_grant\<lparr>resource_id := ''D|S|T|SELECT|false''\<rparr>) sample_db_not_found))) = None"
    by (intro ReadStreamGrant_not_found [OF parsed]) (simp add: builder_for_def)
  ultimately show ?thesis using parsed reply by blast
qed

text \<open>
  C6. \<open>UpdateStreamGrant\<close> does nothing and returns no error if the role set has not
  changed; so it does for a second update, for which the prior role set is the declared
  one. If the role set has changed and the identifier decodes, the statements it sends
  are, in this order, the start of: a revocation for each previous role that is not
  declared, then a grant for each declared role that is not a previous one, then the show
  query of the read; if the driver reports no error for a statement, all of them are sent.
\<close>

theorem UpdateStreamGrant_role_diff:
  "(\<not> HasChange_roles d \<longrightarrow> UpdateStreamGrant reconcile d db = (None, d, db))
   \<and> UpdateStreamGrant reconcile (d\<lparr>roles_prior := roles d\<rparr>) db
       = (None, d\<lparr>roles_prior := roles d\<rparr>, db)
   \<and> (HasChange_roles d \<and> parseStreamGrantID (resource_id d) = Inr grantID \<longrightarrow>
        (\<exists>k. issued (snd (snd (UpdateStreamGrant reconcile d db))) =
           issued db @ take k
             (map (Revoke (builder_for (ObjectName grantID = []) (DatabaseName grantID)
                             (SchemaName grantID) (ObjectName grantID)) (Privilege grantID))
                  (filter (\<lambda>r. r \<notin> set (roles d)) (roles_prior d))
              @ map (\<lambda>r. Grant (builder_for (ObjectName grantID = []) (DatabaseName grantID)
                             (SchemaName grantID) (ObjectName grantID)) (Privilege grantID) r
                             (WithGrantOption grantID))
                  (filter (\<lambda>r. r \<notin> set (roles_prior d)) (roles d))
              @ [Show (builder_for (ObjectName grantID = []) (DatabaseName grantID)
                             (SchemaName grantID) (ObjectName grantID))])))
   \<and> (HasChange_roles d \<and> parseStreamGrantID (resource_id d) = Inr grantID
        \<and> (\<forall>h q. exec_reply db h q = None) \<longrightarrow>
        issued (snd (snd (UpdateStreamGrant reconcile d db))) =
           issued db
           @ map (Revoke (builder_for (ObjectName grantID = []) (DatabaseName grantID)
                           (SchemaName grantID) (ObjectName grantID)) (Privilege grantID))
                 (filter (\<lambda>r. r \<notin> set (roles d)) (roles_prior d))
           @ map (\<lambda>r. Grant (builder_for (ObjectName grantID = []) (DatabaseName grantID)
                           (SchemaName grantID) (ObjectName grantID)) (Privilege grantID) r
                           (WithGrantOption grantID))
                 (filter (\<lambda>r. r \<notin> set (roles_prior d)) (roles d))
           @ [Show (builder_for (ObjectName grantID = []) (DatabaseName grantID)
                           (SchemaName grantID) (ObjectName grantID))])"
proof -
  let ?b = "builder_for (ObjectName grantID = []) (DatabaseName grantID)
              (SchemaName grantID) (ObjectName grantID)"
  let ?toRevoke = "filter (\<lambda>r. r \<notin> set (roles d)) (roles_prior d)"
  let ?toAdd = "filter (\<lambda>r. r \<notin> set (roles_prior d)) (roles d)"
  let ?R = "map (Revoke ?b (Privilege grantID)) ?toRevoke"
  let ?G = "map (\<lambda>r. Grant ?b (Privilege grantID) r (WithGrantOption grantID)) ?toAdd"
  let ?S = "[Show ?b]"
  let ?out = "issued (snd (snd (UpdateStreamGrant reconcile d db)))"
  have unchanged: "\<not> HasChange_roles d \<longrightarrow> UpdateStreamGrant reconcile d db = (None, d, db)"
    by (simp add: UpdateStreamGrant_def)
  have second: "UpdateStreamGrant reconcile (d\<lparr>roles_prior := roles d\<rparr>) db
       = (None, d\<lparr>roles_prior := roles d\<rparr>, db)"
    by (simp add: UpdateStreamGrant_def HasChange_roles_def)
  have run: "UpdateStreamGrant reconcile d db =
      (case deleteGenericGrantRolesAndShares db ?b (Privilege grantID) ?toRevoke of
         (Some err, db1) \<Rightarrow> (Some (Error err), d, db1)
       | (None, db1) \<Rightarrow>
           (case createGenericGrantRolesAndShares db1 ?b (Privilege grantID)
                   (WithGrantOption grantID) ?toAdd of
              (Some err, db2) \<Rightarrow> (Some (Error err), d, db2)
            | (None, db2) \<Rightarrow> ReadStreamGrant reconcile d db2))"
    if "HasChange_roles d" and "parseStreamGrantID (resource_id d) = Inr grantID"
    using that unfolding UpdateStreamGrant_def changeDiff_def Let_def by simp
  have order: "\<exists>k. ?out = issued db @ take k (?R @ ?G @ ?S)"
    if changed: "HasChange_roles d" and parsed: "parseStreamGrantID (resource_id d) = Inr grantID"
  proof -
    obtain e1 db1 where del: "deleteGenericGrantRolesAndShares db ?b (Privilege grantID) ?toRevoke
        = (e1, db1)"
      by (cases "deleteGenericGrantRolesAndShares db ?b (Privilege grantID) ?toRevoke")
    from delete_loop_issued [OF del] obtain ys where
      ys: "issued db1 = issued db @ ys" "prefix ys ?R" "e1 = None \<longrightarrow> ys = ?R" by blast
    show ?thesis
    proof (cases e1)
      case (Some err)
      with run [OF changed parsed] del have "?out = issued db1" by simp
      moreover from ys(2) have "take (length ys) (?R @ ?G @ ?S) = ys"
        by (rule prefix_take)
      ultimately show ?thesis using ys(1) by metis
    next
      case None
      with ys have db1: "issued db1 = issued db @ ?R" by simp
      obtain e2 db2 where cre: "createGenericGrantRolesAndShares db1 ?b (Privilege grantID)
          (WithGrantOption grantID) ?toAdd = (e2, db2)"
        by (cases "createGenericGrantRolesAndShares db1 ?b (Privilege grantID)
          (WithGrantOption grantID) ?toAdd")
      from create_loop_issued [OF cre] obtain zs where
        zs: "issued db2 = issued db1 @ zs" "prefix zs ?G" "e2 = None \<longrightarrow> zs = ?G" by blast
      show ?thesis
      proof (cases e2)
        case (Some err)
        with run [OF changed parsed] del cre None have "?out = issued db2" by simp
        moreover from zs(2) have "take (length ?R + length zs) (?R @ ?G @ ?S) = ?R @ zs"
          by (rule prefix_take_after)
        ultimately show ?thesis using zs(1) db1 by (metis append.assoc)
      next
        case e2: None
        with run [OF changed parsed] del cre None
        have "?out = issued (snd (snd (ReadStreamGrant reconcile d db2)))" by simp
        also have "\<dots> = issued db2 @ ?S" using parsed by (rule Read_issued)
        also have "\<dots> = issued db @ ?R @ ?G @ ?S" using zs e2 db1 by simp
        also have "\<dots> = issued db @ take (length (?R @ ?G @ ?S)) (?R @ ?G @ ?S)"
          by (simp only: take_all order_refl)
        finally show ?thesis by blast
      qed
    qed
  qed
  have all: "?out = issued db @ ?R @ ?G @ ?S"
    if changed: "HasChange_roles d" and parsed: "parseStreamGrantID (resource_id d) = Inr grantID"
      and quiet: "\<forall>h q. exec_reply db h q = None"
  proof -
    let ?db1 = "db\<lparr>issued := issued db @ ?R\<rparr>"
    let ?db2 = "?db1\<lparr>issued := issued ?db1 @ ?G\<rparr>"
    from quiet have del: "deleteGenericGrantRolesAndShares db ?b (Privilege grantID) ?toRevoke
        = (None, ?db1)"
      by (rule delete_loop_quiet)
    from quiet have "\<forall>h q. exec_reply ?db1 h q = None" by simp
    then have cre: "createGenericGrantRolesAndShares ?db1 ?b (Privilege grantID)
          (WithGrantOption grantID) ?toAdd = (None, ?db2)"
      by (rule create_loop_quiet)
    from run [OF changed parsed] del cre
    have "?out = issued (snd (snd (ReadStreamGrant reconcile d ?db2)))" by simp
    also have "\<dots> = issued ?db2 @ ?S" using parsed by (rule Read_issued)
    finally show ?thesis by simp
  qed
  from unchanged second order all show ?thesis by blast
qed

text \<open>The update from the previous roles \<open>A\<close> and \<open>B\<close> to the declared roles \<open>B\<close> and
  \<open>C\<close>: \<open>A\<close> is revoked, then \<open>C\<close> is granted, then the grants are shown; the second
  update does nothing.\<close>

theorem UpdateStreamGrant_role_diff_witness:
  "HasChange_roles (sample_grant\<lparr>resource_id := ''D|S|T|SELECT|false'', roles := [''B'', ''C''],
        roles_prior := [''A'', ''B'']\<rparr>)
   \<and> parseStreamGrantID (resource_id (sample_grant\<lparr>resource_id := ''D|S|T|SELECT|false'',
        roles := [''B'', ''C''], roles_prior := [''A'', ''B'']\<rparr>))
     = Inr \<lparr>DatabaseName = ''D'', SchemaName = ''S'', ObjectName = ''T'', Privilege = ''SELECT'',
          Roles = [], WithGrantOption = False\<rparr>
   \<and> issued (snd (snd (UpdateStreamGrant keep_fields
        (sample_grant\<lparr>resource_id := ''D|S|T|SELECT|false'', roles := [''B'', ''C''],
           roles_prior := [''A'', ''B'']\<rparr>) sample_db)))
     = [Revoke (StreamGrant ''D'' ''S'' ''T'') ''SELECT'' ''A'',
        Grant (StreamGrant ''D'' ''S'' ''T'') ''SELECT'' ''C'' False,
        Show (StreamGrant ''D'' ''S'' ''T'')]
   \<and> UpdateStreamGrant keep_fields
        (sample_grant\<lparr>resource_id := ''D|S|T|SELECT|false'', roles := [''B'', ''C''],
           roles_prior := [''B'', ''C'']\<rparr>) sample_db
     = (None, sample_grant\<lparr>resource_id := ''D|S|T|SELECT|false'', roles := [''B'', ''C''],
           roles_prior := [''B'', ''C'']\<rparr>, sample_db)"
proof -
  let ?d = "sample_grant\<lparr>resource_id := ''D|S|T|SELECT|false'', roles := [''B'', ''C''],
        roles_prior := [''A'', ''B'']\<rparr>"
  let ?g = "\<lparr>DatabaseName = ''D'', SchemaName = ''S'', ObjectName = ''T'', Privilege = ''SELECT'',
          Roles = [], WithGrantOption = False\<rparr>"
  have "''A'' \<in> set (roles_prior ?d)" and "''A'' \<notin> set (roles ?d)"
    by simp_all
  then have changed: "HasChange_roles ?d"
    unfolding HasChange_roles_def by metis
  have parsed: "parseStreamGrantID (resource_id ?d) = Inr ?g"
    by (simp add: parseStreamGrantID_def Contains_def snowflake_def Split.simps index_at_def
        and_then_def)
  have quiet: "\<forall>h q. exec_reply sample_db h q = None"
    by (simp add: sample_db_def no_exec_error_def)
  note inst = UpdateStreamGrant_role_diff [of "?d" keep_fields sample_db "?g"]
  from inst changed parsed quiet
  have "issued (snd (snd (UpdateStreamGrant keep_fields ?d sample_db)))
     = [Revoke (StreamGrant ''D'' ''S'' ''T'') ''SELECT'' ''A'',
        Grant (StreamGrant ''D'' ''S'' ''T'') ''SELECT'' ''C'' False,
        Show (StreamGrant ''D'' ''S'' ''T'')]"
    by (simp add: builder_for_def sample_db_def)
  moreover from inst
  have "UpdateStreamGrant keep_fields (?d\<lparr>roles_prior := roles ?d\<rparr>) sample_db
     = (None, ?d\<lparr>roles_prior := roles ?d\<rparr>, sample_db)"
    by blast
  ultimately show ?thesis using changed parsed by simp
qed

end
